theory Spec2Isabelle
  imports Main "HOL-Library.AList" "HOL-Library.Word"
begin

section \<open>Python values, dictionaries and exceptions\<close>

text \<open>
  The two source files are dynamically typed Python. Values are embedded in one datatype.
  A \<open>dict\<close> is an association list in insertion order (keys are strings); storing
  under a key keeps the position of a key that is present and appends a new one, which is
  what \<open>AList.update\<close> does. \<open>VObj\<close> is an opaque object (for instance an instance of
  \<open>RestMethodParam\<close>): it is truthy, has no length and is not iterable.

  A value of this type stands for an object that nothing else refers to. Where the source
  changes a list in place and the change can be seen through another reference (the
  decorator appends to a verb list of its caller), list objects are kept in a store and
  referred to by address; see the section on the decorator.
\<close>

datatype pyval =
    VNone
  | VBool bool
  | VInt int
  | VStr string
  | VBytes "8 word list"
  | VList "pyval list"
  | VTuple "pyval list"
  | VDict "(string \<times> pyval) list"
  | VObj nat

type_synonym pydict = "(string \<times> pyval) list"

datatype msg = Msg string pyval
  \<comment> \<open>\<open>_(template) % value\<close>: the message template and the value interpolated into it\<close>

datatype error =
    TypeError
  | ValueError
  | KeyError string
  | AttributeError
  | DocumentError
  | UserError msg
  | SystemError msg
  | Exception msg
  | PluginMethodNotImplementedError

fun truthy :: "pyval \<Rightarrow> bool" where
  "truthy VNone = False"
| "truthy (VBool b) = b"
| "truthy (VInt i) = (i \<noteq> 0)"
| "truthy (VStr s) = (s \<noteq> [])"
| "truthy (VBytes bs) = (bs \<noteq> [])"
| "truthy (VList xs) = (xs \<noteq> [])"
| "truthy (VTuple xs) = (xs \<noteq> [])"
| "truthy (VDict kvs) = (kvs \<noteq> [])"
| "truthy (VObj _) = True"

definition dict_get :: "pydict \<Rightarrow> string \<Rightarrow> pyval \<Rightarrow> pyval" where
  \<comment> \<open>\<open>d.get(k, default)\<close>\<close>
  "dict_get d k dflt = (case map_of d k of Some v \<Rightarrow> v | None \<Rightarrow> dflt)"

fun dict_update :: "pydict \<Rightarrow> pydict \<Rightarrow> pydict" where
  \<comment> \<open>\<open>d.update(other)\<close>: the entries of \<open>other\<close> are stored one after the other\<close>
  "dict_update d [] = d"
| "dict_update d ((k, v) # kvs) = dict_update (AList.update k v d) kvs"

fun py_iter :: "pyval \<Rightarrow> error + pyval list" where
  \<comment> \<open>the items a \<open>for\<close> loop or a tuple unpacking draws from a value\<close>
  "py_iter (VList xs) = Inr xs"
| "py_iter (VTuple xs) = Inr xs"
| "py_iter (VStr s) = Inr (map (\<lambda>c. VStr [c]) s)"
| "py_iter (VBytes bs) = Inr (map (\<lambda>b. VInt (uint b)) bs)"
| "py_iter (VDict kvs) = Inr (map (\<lambda>kv. VStr (fst kv)) kvs)"
| "py_iter VNone = Inl TypeError"
| "py_iter (VBool _) = Inl TypeError"
| "py_iter (VInt _) = Inl TypeError"
| "py_iter (VObj _) = Inl TypeError"

section \<open>The decorator \<open>method\<close> (restapi.py)\<close>

text \<open>
  The loop of the decorator appends \<open>OPTIONS\<close> to a verb list of its caller in place,
  and copies the path list afterwards. A list that the caller passes in more than one place
  (as the verb list of two route specifications, or as path list and verb list) is therefore
  a list object in a store: \<open>ListAt a\<close> is the list at address \<open>a\<close>, and the loop
  returns the store as it leaves it. \<open>Plain v\<close> is a path, a verb, or a list that occurs
  in this one place only. The items of a list are values.
\<close>

type_synonym store = "nat \<Rightarrow> pyval list"

datatype operand = Plain pyval | ListAt nat

definition operand_value :: "store \<Rightarrow> operand \<Rightarrow> pyval" where
  \<comment> \<open>what the caller wrote in this place\<close>
  "operand_value st x = (case x of Plain v \<Rightarrow> v | ListAt a \<Rightarrow> VList (st a))"

definition as_list :: "pyval \<Rightarrow> pyval list" where
  \<comment> \<open>\<open>if not isinstance(x, list): x = [x]\<close>\<close>
  "as_list x = (case x of VList xs \<Rightarrow> xs | _ \<Rightarrow> [x])"

definition read_list :: "store \<Rightarrow> operand \<Rightarrow> pyval list" where
  \<comment> \<open>the items of \<open>x\<close> after \<open>if not isinstance(x, list): x = [x]\<close>, in the store
      \<open>st\<close>\<close>
  "read_list st x = (case x of ListAt a \<Rightarrow> st a | Plain v \<Rightarrow> as_list v)"

definition options_appended :: "pydict \<Rightarrow> pyval list \<Rightarrow> pyval list" where
  \<comment> \<open>the items of \<open>http_methods\<close> after
      \<open>if kw.get("cors") and "OPTIONS" not in http_methods: http_methods.append("OPTIONS")\<close>\<close>
  "options_appended kw http_methods =
     (if truthy (dict_get kw ''cors'' VNone) \<and> VStr ''OPTIONS'' \<notin> set http_methods
      then http_methods @ [VStr ''OPTIONS'']
      else http_methods)"

definition append_options :: "pydict \<Rightarrow> operand \<Rightarrow> store \<Rightarrow> store" where
  \<comment> \<open>the store after that statement: the append changes the list object itself\<close>
  "append_options kw http_methods st =
     (case http_methods of
        ListAt a \<Rightarrow> st(a := options_appended kw (st a))
      | Plain v \<Rightarrow> st)"

fun append_methods :: "pyval list \<Rightarrow> pyval list \<Rightarrow> pyval list \<Rightarrow> pyval list" where
  \<comment> \<open>\<open>for m in http_methods: _routes.append(([p for p in paths], m))\<close>\<close>
  "append_methods paths [] routes_acc = routes_acc"
| "append_methods paths (m # ms) routes_acc =
     append_methods paths ms (routes_acc @ [VTuple [VList (map (\<lambda>p. p) paths), m]])"

fun compute_routes ::
  "pydict \<Rightarrow> (operand \<times> operand) list \<Rightarrow> store \<Rightarrow> pyval list \<Rightarrow> pyval list \<times> store" where
  \<comment> \<open>the loop \<open>for paths, http_methods in routes\<close>, with \<open>_routes\<close> as accumulator; the
      path list is read after the append to the verb list\<close>
  "compute_routes kw [] st routes_acc = (routes_acc, st)"
| "compute_routes kw ((paths, http_methods) # rest) st routes_acc =
     (let methods = options_appended kw (read_list st http_methods);
          st' = append_options kw http_methods st
      in compute_routes kw rest st'
           (append_methods (read_list st' paths) methods routes_acc))"

record ('a, 'b) wrapper =
  call :: "'a \<Rightarrow> 'b"
  routing :: pydict
  original_func :: "'a \<Rightarrow> 'b"

definition response_wrap :: "('a \<Rightarrow> 'b) \<Rightarrow> 'a \<Rightarrow> 'b" where
  \<comment> \<open>\<open>response = f(*args, **kw); return response\<close>. The argument stands for the whole
      argument list, the result for whatever the call produces (a value, an exception,
      a new state).\<close>
  "response_wrap f args = (let response = f args in response)"

definition decorator ::
  "store \<Rightarrow> (operand \<times> operand) list \<Rightarrow> pyval \<Rightarrow> pyval \<Rightarrow> pydict \<Rightarrow> ('a \<Rightarrow> 'b)
     \<Rightarrow> ('a, 'b) wrapper \<times> store" where
  \<comment> \<open>\<open>decorator(f)\<close> in the closure of \<open>method(routes, input_param, output_param, **kw)\<close>,
      started in the store \<open>st\<close>: the wrapper and the store afterwards\<close>
  "decorator st routes input_param output_param kw f =
     (case compute_routes kw routes st [] of
        (computed, st') \<Rightarrow>
          (\<lparr> call = response_wrap f,
             routing = dict_update
               [(''routes'', VList computed),
                (''input_param'', input_param),
                (''output_param'', output_param)] kw,
             original_func = f \<rparr>, st'))"

text \<open>
  A call \<open>method(*args, **kwargs)\<close> binds its arguments to the signature
  \<open>method(routes, input_param=None, output_param=None, **kw)\<close>: the first three positional
  arguments go to the named parameters, a keyword with the name of a parameter goes to that
  parameter, and \<open>kw\<close> collects the keywords that name no parameter. More than three
  positional arguments, a parameter given twice, and no value for \<open>routes\<close> are a
  \<open>TypeError\<close>.
\<close>

definition param_names :: "string list" where
  "param_names = [''routes'', ''input_param'', ''output_param'']"

definition bind_param :: "pyval list \<Rightarrow> pydict \<Rightarrow> nat \<Rightarrow> pyval" where
  "bind_param args kwargs i =
     (if i < length args then args ! i else dict_get kwargs (param_names ! i) VNone)"

definition bind_method :: "pyval list \<Rightarrow> pydict \<Rightarrow> error + (pyval \<times> pyval \<times> pyval \<times> pydict)" where
  "bind_method args kwargs =
     (if length args > 3 then Inl TypeError
      else if list_ex (\<lambda>n. n \<in> fst ` set kwargs) (take (length args) param_names) then Inl TypeError
      else if args = [] \<and> ''routes'' \<notin> fst ` set kwargs then Inl TypeError
      else Inr (bind_param args kwargs 0, bind_param args kwargs 1, bind_param args kwargs 2,
                filter (\<lambda>kv. fst kv \<notin> set param_names) kwargs))"

fun unpack_pair :: "pyval \<Rightarrow> error + (pyval \<times> pyval)" where
  \<comment> \<open>\<open>paths, http_methods = item\<close>\<close>
  "unpack_pair item =
     (case py_iter item of
        Inl e \<Rightarrow> Inl e
      | Inr [a, b] \<Rightarrow> Inr (a, b)
      | Inr _ \<Rightarrow> Inl ValueError)"

fun unpack_pairs :: "pyval list \<Rightarrow> error + (operand \<times> operand) list" where
  \<comment> \<open>the items of \<open>routes\<close>, each unpacked into a pair of values\<close>
  "unpack_pairs [] = Inr []"
| "unpack_pairs (item # items) =
     (case unpack_pair item of
        Inl e \<Rightarrow> Inl e
      | Inr (paths, http_methods) \<Rightarrow>
          (case unpack_pairs items of
             Inl e \<Rightarrow> Inl e
           | Inr rest \<Rightarrow> Inr ((Plain paths, Plain http_methods) # rest)))"

definition rest_method ::
  "pyval list \<Rightarrow> pydict \<Rightarrow> ('a \<Rightarrow> 'b) \<Rightarrow> error + ('a, 'b) wrapper" where
  \<comment> \<open>\<open>method(*args, **kwargs)(f)\<close> for arguments written as values, so that no list
      occurs in two places: the arguments are bound, \<open>routes\<close> is iterated and its items
      are unpacked (either may raise), and the decorator runs on the pairs\<close>
  "rest_method args kwargs f =
     (case bind_method args kwargs of
        Inl e \<Rightarrow> Inl e
      | Inr (routes, input_param, output_param, kw) \<Rightarrow>
          (case py_iter routes of
             Inl e \<Rightarrow> Inl e
           | Inr items \<Rightarrow>
               (case unpack_pairs items of
                  Inl e \<Rightarrow> Inl e
                | Inr pairs \<Rightarrow>
                    Inr (fst (decorator (\<lambda>a. []) pairs input_param output_param kw f)))))"

subsection \<open>Reading the attached metadata\<close>

definition attached :: "('a, 'b) wrapper \<times> store \<Rightarrow> string \<Rightarrow> pyval option" where
  \<comment> \<open>\<open>wrapper.routing[k]\<close> of the decorator's result\<close>
  "attached r k = map_of (routing (fst r)) k"

fun route_verb :: "pyval \<Rightarrow> pyval option" where
  "route_verb (VTuple [paths, m]) = Some m"
| "route_verb _ = None"

definition registered_verbs :: "pyval list \<Rightarrow> pyval list" where
  \<comment> \<open>the verbs of the entries of \<open>_routes\<close>, in order\<close>
  "registered_verbs rs = List.map_filter route_verb rs"

definition grouped_routes :: "pydict \<Rightarrow> store \<Rightarrow> (operand \<times> operand) list \<Rightarrow> pyval list" where
  \<comment> \<open>one entry (whole path list, verb) for each verb of each route specification, from
      the lists as they are in the store \<open>st\<close>\<close>
  "grouped_routes kw st specs =
     concat (map (\<lambda>(p, v). map (\<lambda>m. VTuple [VList (read_list st p), m])
                               (options_appended kw (read_list st v))) specs)"

definition spec_route_pairs :: "pydict \<Rightarrow> store \<Rightarrow> (operand \<times> operand) list \<Rightarrow> pyval list" where
  \<comment> \<open>the specification's wording: the cross product of paths and verbs, flattened into
      individual (path, verb) pairs and deduplicated\<close>
  "spec_route_pairs kw st specs =
     remdups (concat (map (\<lambda>(p, v).
        concat (map (\<lambda>path. map (\<lambda>verb. VTuple [path, verb]) (options_appended kw (read_list st v)))
                  (read_list st p))) specs))"

definition no_list_is_path_and_verb_list :: "(operand \<times> operand) list \<Rightarrow> bool" where
  \<comment> \<open>no list object is the path list of one route specification and the verb list of one\<close>
  "no_list_is_path_and_verb_list specs =
     list_all (\<lambda>p. (case p of ListAt a \<Rightarrow> False | Plain v \<Rightarrow> True) \<or> p \<notin> snd ` set specs)
       (map fst specs)"

text \<open>
  While the loop runs, every list of the store is as the caller passed it, or is that list
  with \<open>OPTIONS\<close> appended.
\<close>

definition grown :: "pydict \<Rightarrow> store \<Rightarrow> store \<Rightarrow> bool" where
  "grown kw st st' = (\<forall>a. st' a = st a \<or> st' a = options_appended kw (st a))"

section \<open>Operations on Python values used by the transformers and the plugin\<close>

definition and_then :: "error + 'a \<Rightarrow> ('a \<Rightarrow> error + 'b) \<Rightarrow> error + 'b" where
  \<comment> \<open>sequencing: an exception raised by the first step ends the computation\<close>
  "and_then r k = (case r of Inl e \<Rightarrow> Inl e | Inr x \<Rightarrow> k x)"

fun py_len :: "pyval \<Rightarrow> error + int" where
  \<comment> \<open>\<open>len(x)\<close>\<close>
  "py_len (VStr s) = Inr (int (length s))"
| "py_len (VBytes bs) = Inr (int (length bs))"
| "py_len (VList xs) = Inr (int (length xs))"
| "py_len (VTuple xs) = Inr (int (length xs))"
| "py_len (VDict kvs) = Inr (int (length kvs))"
| "py_len VNone = Inl TypeError"
| "py_len (VBool _) = Inl TypeError"
| "py_len (VInt _) = Inl TypeError"
| "py_len (VObj _) = Inl TypeError"

definition py_getitem :: "pyval \<Rightarrow> string \<Rightarrow> error + pyval" where
  \<comment> \<open>\<open>x[k]\<close> for a string key\<close>
  "py_getitem x k =
     (case x of
        VDict d \<Rightarrow> (case map_of d k of Some v \<Rightarrow> Inr v | None \<Rightarrow> Inl (KeyError k))
      | _ \<Rightarrow> Inl TypeError)"

definition py_get :: "pyval \<Rightarrow> string \<Rightarrow> pyval \<Rightarrow> error + pyval" where
  \<comment> \<open>\<open>x.get(k, default)\<close>: only a dict has the method\<close>
  "py_get x k dflt = (case x of VDict d \<Rightarrow> Inr (dict_get d k dflt) | _ \<Rightarrow> Inl AttributeError)"

definition py_items :: "pyval \<Rightarrow> error + (string \<times> pyval) list" where
  \<comment> \<open>\<open>x.items()\<close>\<close>
  "py_items x = (case x of VDict d \<Rightarrow> Inr d | _ \<Rightarrow> Inl AttributeError)"

definition py_setitem :: "pyval \<Rightarrow> string \<Rightarrow> pyval \<Rightarrow> error + pyval" where
  \<comment> \<open>\<open>x[k] = v\<close> for a string key, returning the updated value\<close>
  "py_setitem x k v = (case x of VDict d \<Rightarrow> Inr (VDict (AList.update k v d)) | _ \<Rightarrow> Inl TypeError)"

definition is_substring :: "string \<Rightarrow> string \<Rightarrow> bool" where
  "is_substring t s = list_ex (\<lambda>i. take (length t) (drop i s) = t) [0..<Suc (length s)]"

definition py_contains_str :: "pyval \<Rightarrow> string \<Rightarrow> error + bool" where
  \<comment> \<open>\<open>k in x\<close> for a string \<open>k\<close>\<close>
  "py_contains_str x k =
     (case x of
        VList xs \<Rightarrow> Inr (VStr k \<in> set xs)
      | VTuple xs \<Rightarrow> Inr (VStr k \<in> set xs)
      | VDict d \<Rightarrow> Inr (k \<in> fst ` set d)
      | VStr s \<Rightarrow> Inr (is_substring k s)
      | _ \<Rightarrow> Inl TypeError)"

section \<open>\<open>BinaryData\<close> (restapi.py)\<close>

record binary_data =
  mediatypes :: "pyval list"
  required :: pyval

definition BinaryData_init :: "pyval \<Rightarrow> pyval \<Rightarrow> binary_data" where
  \<comment> \<open>\<open>__init__(self, mediatypes="*/*", required=False)\<close>\<close>
  "BinaryData_init mediatypes_arg required_arg =
     \<lparr> mediatypes = as_list mediatypes_arg, required = required_arg \<rparr>"

datatype 'r handler_result =
    Response 'r  \<comment> \<open>an instance of \<open>http.Response\<close>\<close>
  | Value pyval  \<comment> \<open>any other value\<close>

text \<open>
  \<open>http.content_disposition\<close> and \<open>http.request.make_response\<close> belong to the host
  framework; they are parameters. \<open>make_response\<close> receives the payload and the header list.
\<close>

definition to_http_response ::
  "(pyval \<Rightarrow> (string \<times> pyval) list \<Rightarrow> 'r) \<Rightarrow> (string \<Rightarrow> pyval) \<Rightarrow> binary_data \<Rightarrow> pyval \<Rightarrow> error + 'r" where
  "to_http_response make_response content_disposition self result =
     (let mediatype = (if length (mediatypes self) = 1 then mediatypes self ! 0 else VStr ''*/*'') in
      and_then (py_len result) (\<lambda>n.
        Inr (make_response result
               [(''Content-Type'', mediatype),
                (''X-Content-Type-Options'', VStr ''nosniff''),
                (''Content-Disposition'', content_disposition ''file''),
                (''Content-Length'', VInt n)])))"

definition BinaryData_to_response ::
  "(pyval \<Rightarrow> (string \<times> pyval) list \<Rightarrow> 'r) \<Rightarrow> (string \<Rightarrow> pyval) \<Rightarrow> binary_data \<Rightarrow> 'r handler_result
     \<Rightarrow> error + 'r" where
  "BinaryData_to_response make_response content_disposition self result =
     (case result of
        Response r \<Rightarrow> Inr r
      | Value v \<Rightarrow> to_http_response make_response content_disposition self v)"

definition BinaryData_from_params :: "binary_data \<Rightarrow> pyval \<Rightarrow> pyval" where
  "BinaryData_from_params self params = params"

section \<open>\<open>CerberusValidator\<close> (restapi.py)\<close>

text \<open>
  A \<open>cerberus.Validator\<close> is used through its attribute \<open>schema\<close> and its method
  \<open>validate\<close>, which returns the verdict and leaves the normalized document and the errors
  in the attributes \<open>document\<close> and \<open>errors\<close>.
\<close>

record validation =
  valid :: bool
  document :: pyval
  errors :: pyval

record validator =
  v_schema :: pyval
  v_validate :: "pyval \<Rightarrow> error + validation"

datatype direction = Input | Output

datatype schema_source =
    SchemaName string  \<comment> \<open>a \<open>str\<close>: the name of a method of the service\<close>
  | SchemaValidator validator  \<comment> \<open>an instance of \<open>cerberus.Validator\<close>\<close>
  | SchemaRules pydict  \<comment> \<open>a \<open>dict\<close> of field rules\<close>
  | SchemaOther pyval  \<comment> \<open>anything else\<close>

record cerberus_validator =
  schema :: schema_source
  is_list :: bool

fun source_value :: "schema_source \<Rightarrow> pyval" where
  \<comment> \<open>the value printed in the message of the resolution error\<close>
  "source_value (SchemaName n) = VStr n"
| "source_value (SchemaRules d) = VDict d"
| "source_value (SchemaOther v) = v"
| "source_value (SchemaValidator v) = VObj 0"

text \<open>
  The constructor \<open>Validator(schema, purge_unknown=True)\<close> of cerberus and the lookup of a
  named schema (\<open>service.component(usage="cerberus.validator").get_validator_handler(...)()\<close>)
  are parameters: \<open>Validator rules purge_unknown\<close> and \<open>service name direction\<close>.
\<close>

definition get_cerberus_validator ::
  "(pydict \<Rightarrow> bool \<Rightarrow> validator) \<Rightarrow> (string \<Rightarrow> direction \<Rightarrow> error + schema_source) \<Rightarrow>
   cerberus_validator \<Rightarrow> direction \<Rightarrow> error + validator" where
  "get_cerberus_validator Validator service self direction =
     and_then (case schema self of
                 SchemaName n \<Rightarrow> service n direction
               | _ \<Rightarrow> Inr (schema self))
       (\<lambda>resolved.
          case resolved of
            SchemaValidator v \<Rightarrow> Inr v
          | SchemaRules d \<Rightarrow> Inr (Validator d True)
          | _ \<Rightarrow> Inl (Exception (Msg ''Unable to get cerberus schema from %s''
                                   (source_value (schema self)))))"

definition CerberusValidator_from_params ::
  "(pydict \<Rightarrow> bool \<Rightarrow> validator) \<Rightarrow> (string \<Rightarrow> direction \<Rightarrow> error + schema_source) \<Rightarrow>
   cerberus_validator \<Rightarrow> pyval \<Rightarrow> error + pyval" where
  "CerberusValidator_from_params Validator service self params =
     and_then (get_cerberus_validator Validator service self Input) (\<lambda>validator.
     and_then (v_validate validator params) (\<lambda>outcome.
       if valid outcome then Inr (document outcome)
       else Inl (UserError (Msg ''BadRequest %s'' (errors outcome)))))"

definition CerberusValidator_to_response ::
  "(pydict \<Rightarrow> bool \<Rightarrow> validator) \<Rightarrow> (string \<Rightarrow> direction \<Rightarrow> error + schema_source) \<Rightarrow>
   cerberus_validator \<Rightarrow> pyval \<Rightarrow> error + pyval" where
  "CerberusValidator_to_response Validator service self result =
     and_then (get_cerberus_validator Validator service self Output) (\<lambda>validator.
     and_then (v_validate validator result) (\<lambda>outcome.
       if valid outcome then Inr (document outcome)
       else Inl (SystemError (Msg ''Invalid Response %s'' (errors outcome)))))"

text \<open>
  \<open>cerberus_to_json\<close> is imported from \<open>tools.py\<close>, which is not among the sources; it is
  the parameter \<open>cerberus_to_json\<close> of the next two functions.
\<close>

definition to_json_schema ::
  "(pydict \<Rightarrow> bool \<Rightarrow> validator) \<Rightarrow> (string \<Rightarrow> direction \<Rightarrow> error + schema_source) \<Rightarrow>
   (pyval \<Rightarrow> error + pyval) \<Rightarrow> cerberus_validator \<Rightarrow> direction \<Rightarrow> error + pyval" where
  "to_json_schema Validator service cerberus_to_json self direction =
     and_then (get_cerberus_validator Validator service self direction) (\<lambda>validator.
       cerberus_to_json (v_schema validator))"

definition parameter_schema :: "pyval \<Rightarrow> error + pyval" where
  \<comment> \<open>the value of \<open>params["schema"]\<close> when \<open>params\<close> is appended: the nested schema of
      the property or its type, then \<open>items\<close> and \<open>enum\<close> where the property has them\<close>
  "parameter_schema spec =
     and_then (py_get spec ''schema'' VNone) (\<lambda>nested.
     and_then (if truthy nested then Inr nested
               else and_then (py_getitem spec ''type'') (\<lambda>t. Inr (VDict [(''type'', t)]))) (\<lambda>sch.
     and_then (py_get spec ''items'' VNone) (\<lambda>items.
     and_then (if truthy items then py_setitem sch ''items'' items else Inr sch) (\<lambda>sch.
     and_then (py_contains_str spec ''enum'') (\<lambda>has_enum.
       if has_enum
       then and_then (py_getitem spec ''enum'') (\<lambda>enum. py_setitem sch ''enum'' enum)
       else Inr sch)))))"

definition query_parameter :: "pyval \<Rightarrow> string \<Rightarrow> pyval \<Rightarrow> error + pyval" where
  \<comment> \<open>one turn of the loop of \<open>to_openapi_query_parameters\<close>: the dict \<open>params\<close> as it is
      when the turn ends (the rename after \<open>parameters.append(params)\<close> changes the dict
      that is in the list)\<close>
  "query_parameter json_schema prop spec =
     and_then (py_getitem json_schema ''required'') (\<lambda>required_list.
     and_then (py_contains_str required_list prop) (\<lambda>is_required.
     and_then (py_get spec ''nullable'' (VBool False)) (\<lambda>nullable.
     and_then (py_get spec ''default'' VNone) (\<lambda>dflt.
     and_then (parameter_schema spec) (\<lambda>sch.
     and_then (py_getitem spec ''type'') (\<lambda>t.
       let params = AList.update ''schema'' sch
                      [(''name'', VStr prop),
                       (''in'', VStr ''query''),
                       (''required'', VBool is_required),
                       (''allowEmptyValue'', nullable),
                       (''default'', dflt)]
       in Inr (VDict (if t = VStr ''array''
                      then AList.update ''name'' (VStr (prop @ ''[]'')) params
                      else params))))))))"

fun query_parameters ::
  "pyval \<Rightarrow> (string \<times> pyval) list \<Rightarrow> pyval list \<Rightarrow> error + pyval list" where
  \<comment> \<open>the loop over \<open>json_schema["properties"].items()\<close>, with \<open>parameters\<close> as accumulator\<close>
  "query_parameters json_schema [] parameters = Inr parameters"
| "query_parameters json_schema ((prop, spec) # rest) parameters =
     and_then (query_parameter json_schema prop spec) (\<lambda>params.
       query_parameters json_schema rest (parameters @ [params]))"

definition to_openapi_query_parameters ::
  "(pydict \<Rightarrow> bool \<Rightarrow> validator) \<Rightarrow> (string \<Rightarrow> direction \<Rightarrow> error + schema_source) \<Rightarrow>
   (pyval \<Rightarrow> error + pyval) \<Rightarrow> cerberus_validator \<Rightarrow> error + pyval list" where
  "to_openapi_query_parameters Validator service cerberus_to_json self =
     and_then (to_json_schema Validator service cerberus_to_json self Input) (\<lambda>json_schema.
     and_then (py_getitem json_schema ''properties'') (\<lambda>properties.
     and_then (py_items properties) (\<lambda>items.
       query_parameters json_schema items [])))"

subsection \<open>The shape of a converted schema\<close>

definition well_formed_spec :: "pyval \<Rightarrow> bool" where
  \<comment> \<open>a property description that the loop can read: a dict with a \<open>type\<close>, whose nested
      \<open>schema\<close>, if it has a truthy one, is a dict\<close>
  "well_formed_spec spec =
     (case spec of
        VDict d \<Rightarrow> ''type'' \<in> fst ` set d \<and>
                   (case dict_get d ''schema'' VNone of VDict _ \<Rightarrow> True | n \<Rightarrow> \<not> truthy n)
      | _ \<Rightarrow> False)"

definition well_formed_json_schema :: "pyval \<Rightarrow> bool" where
  \<comment> \<open>a dict with a dict \<open>properties\<close> of well-formed descriptions and a list \<open>required\<close>\<close>
  "well_formed_json_schema json_schema =
     (case json_schema of
        VDict d \<Rightarrow>
          (case map_of d ''properties'' of
             Some (VDict props) \<Rightarrow> list_all (\<lambda>ps. well_formed_spec (snd ps)) props
           | _ \<Rightarrow> False) \<and>
          (case map_of d ''required'' of Some (VList _) \<Rightarrow> True | _ \<Rightarrow> False)
      | _ \<Rightarrow> False)"

definition exposed_name :: "string \<times> pyval \<Rightarrow> error + pyval" where
  \<comment> \<open>the name under which a property is exposed: with the suffix \<open>[]\<close> when its type is
      \<open>array\<close>\<close>
  "exposed_name ps =
     Inr (VStr (if py_getitem (snd ps) ''type'' = Inr (VStr ''array'') then fst ps @ ''[]'' else fst ps))"

section \<open>\<open>RestMethodSecurityPlugin\<close> (rest_method_security_plugin.py)\<close>

definition api_key_requirement :: pyval where
  \<comment> \<open>\<open>{"api_key": []}\<close>\<close>
  "api_key_requirement = VDict [(''api_key'', VList [])]"

definition add_security :: "pyval \<Rightarrow> error + pyval" where
  \<comment> \<open>\<open>security = params.setdefault("security", []); security.append({"api_key": []})\<close>,
      returning \<open>params\<close> as it is afterwards\<close>
  "add_security params =
     (case params of
        VDict d \<Rightarrow>
          (case dict_get d ''security'' (VList []) of
             VList security \<Rightarrow>
               Inr (VDict (AList.update ''security'' (VList (security @ [api_key_requirement])) d))
           | _ \<Rightarrow> Inl AttributeError)
      | _ \<Rightarrow> Inl AttributeError)"

fun secure_operations :: "(string \<times> pyval) list \<Rightarrow> error + (string \<times> pyval) list" where
  \<comment> \<open>the loop \<open>for _method, params in operations.items()\<close>\<close>
  "secure_operations [] = Inr []"
| "secure_operations ((m, params) # rest) =
     and_then (add_security params) (\<lambda>params'.
     and_then (secure_operations rest) (\<lambda>rest'. Inr ((m, params') # rest')))"

text \<open>
  \<open>operation_helper\<close> changes the dict \<open>operations\<close> in place and returns nothing; the
  embedding returns \<open>operations\<close> as it is when the call ends. The helper of the base class
  (\<open>apispec.BasePlugin\<close>, not part of the sources) is the parameter \<open>base\<close>; it may raise,
  or return and leave \<open>operations\<close> changed. \<open>spec_params\<close> is \<open>self.spec._params\<close>.
\<close>

definition operation_helper ::
  "(pyval \<Rightarrow> pyval \<Rightarrow> pydict \<Rightarrow> error + pyval) \<Rightarrow> pydict \<Rightarrow> pyval \<Rightarrow> pyval \<Rightarrow> pydict \<Rightarrow> error + pyval" where
  "operation_helper base spec_params path operations kwargs =
     (let routing = dict_get kwargs ''routing'' VNone in
      and_then (if \<not> truthy routing then base path operations kwargs else Inr operations)
        (\<lambda>operations.
           if \<not> truthy operations then Inr operations
           else
             and_then (py_get routing ''auth'' (dict_get spec_params ''default_auth'' VNone)) (\<lambda>auth.
               if auth = VStr ''api_key''
               then and_then (py_items operations) (\<lambda>items.
                    and_then (secure_operations items) (\<lambda>items'. Inr (VDict items')))
               else Inr operations)))"

subsection \<open>The effect on one operation\<close>

definition security_list :: "pyval \<Rightarrow> pyval list option" where
  \<comment> \<open>the security list of an operation: empty when it has no entry \<open>security\<close>, undefined
      when the operation is not a dict or the entry is not a list\<close>
  "security_list params =
     (case params of
        VDict d \<Rightarrow> (case dict_get d ''security'' (VList []) of VList xs \<Rightarrow> Some xs | _ \<Rightarrow> None)
      | _ \<Rightarrow> None)"

definition other_entry :: "pyval \<Rightarrow> string \<Rightarrow> pyval option" where
  "other_entry params k = (case params of VDict d \<Rightarrow> map_of d k | _ \<Rightarrow> None)"

definition secured :: "string \<times> pyval \<Rightarrow> string \<times> pyval \<Rightarrow> bool" where
  \<comment> \<open>the second operation is the first one with one requirement of \<open>api_key\<close> appended to
      its security list, and nothing else changed\<close>
  "secured before after =
     (fst after = fst before \<and>
      (\<exists>xs. security_list (snd before) = Some xs \<and>
            security_list (snd after) = Some (xs @ [api_key_requirement])) \<and>
      (\<forall>k. k \<noteq> ''security'' \<longrightarrow> other_entry (snd after) k = other_entry (snd before) k))"

section \<open>The validator of cerberus\<close>

text \<open>
  Modelled from the spec: \<open>cerberus.Validator\<close>, the validation library that
  \<open>restapi.py\<close> imports, is not among the sources. The specification says of a validation
  schema that each field rule carries a type, a required flag, a nullable flag, a default
  validator is configured to purge them, and that validating returns the canonicalized
  document with the defaults applied. The model below follows these words for the top-level
  fields of a document: it first drops the unknown fields (when \<open>purge_unknown\<close> is set),
  then stores the default of every field that has one and is missing (or is \<open>None\<close>
  without being nullable), and then checks the rules on the document so normalized.
\<close>

definition rule_entry :: "pyval \<Rightarrow> string \<Rightarrow> pyval option" where
  "rule_entry rule k = (case rule of VDict r \<Rightarrow> map_of r k | _ \<Rightarrow> None)"

definition rule_flag :: "pyval \<Rightarrow> string \<Rightarrow> bool" where
  "rule_flag rule k = (case rule_entry rule k of Some v \<Rightarrow> truthy v | None \<Rightarrow> False)"

definition purge_unknown_fields :: "pydict \<Rightarrow> pydict \<Rightarrow> pydict" where
  "purge_unknown_fields rules doc = filter (\<lambda>kv. fst kv \<in> fst ` set rules) doc"

fun apply_defaults :: "pydict \<Rightarrow> pydict \<Rightarrow> pydict" where
  "apply_defaults [] doc = doc"
| "apply_defaults ((field, rule) # rules) doc =
     apply_defaults rules
       (case rule_entry rule ''default'' of
          Some dv \<Rightarrow>
            if field \<notin> fst ` set doc \<or> (map_of doc field = Some VNone \<and> \<not> rule_flag rule ''nullable'')
            then AList.update field dv doc
            else doc
        | None \<Rightarrow> doc)"

definition has_type :: "pyval \<Rightarrow> pyval \<Rightarrow> bool" where
  "has_type t v =
     (if t = VStr ''string'' then (case v of VStr _ \<Rightarrow> True | _ \<Rightarrow> False)
      else if t = VStr ''integer'' then (case v of VInt _ \<Rightarrow> True | _ \<Rightarrow> False)
      else if t = VStr ''boolean'' then (case v of VBool _ \<Rightarrow> True | _ \<Rightarrow> False)
      else if t = VStr ''list'' then (case v of VList _ \<Rightarrow> True | VTuple _ \<Rightarrow> True | _ \<Rightarrow> False)
      else if t = VStr ''dict'' then (case v of VDict _ \<Rightarrow> True | _ \<Rightarrow> False)
      else if t = VStr ''binary'' then (case v of VBytes _ \<Rightarrow> True | _ \<Rightarrow> False)
      else True)"

definition value_errors :: "pyval \<Rightarrow> pyval \<Rightarrow> pyval list" where
  "value_errors rule v =
     (if v = VNone
      then (if rule_flag rule ''nullable'' then [] else [VStr ''null value not allowed''])
      else (case rule_entry rule ''type'' of
              Some t \<Rightarrow> if has_type t v then [] else [VStr ''wrong type'']
            | None \<Rightarrow> []) @
           (case rule_entry rule ''allowed'' of
              Some (VList allowed) \<Rightarrow> if v \<in> set allowed then [] else [VStr ''unallowed value'']
            | _ \<Rightarrow> []))"

fun field_errors :: "pydict \<Rightarrow> pydict \<Rightarrow> pydict" where
  "field_errors [] doc = []"
| "field_errors ((field, rule) # rules) doc =
     (case map_of doc field of
        None \<Rightarrow> if rule_flag rule ''required'' then [(field, VList [VStr ''required field''])] else []
      | Some v \<Rightarrow> (case value_errors rule v of [] \<Rightarrow> [] | es \<Rightarrow> [(field, VList es)]))
     @ field_errors rules doc"

definition unknown_errors :: "pydict \<Rightarrow> pydict \<Rightarrow> pydict" where
  "unknown_errors rules doc =
     map (\<lambda>kv. (fst kv, VList [VStr ''unknown field''])) (filter (\<lambda>kv. fst kv \<notin> fst ` set rules) doc)"

definition cerberus_Validator :: "pydict \<Rightarrow> bool \<Rightarrow> validator" where
  \<comment> \<open>\<open>Validator(rules, purge_unknown=...)\<close>\<close>
  "cerberus_Validator rules purge_unknown =
     \<lparr> v_schema = VDict rules,
       v_validate = (\<lambda>doc.
         case doc of
           VDict d \<Rightarrow>
             (let normalized = apply_defaults rules
                                 (if purge_unknown then purge_unknown_fields rules d else d);
                  errs = unknown_errors rules normalized @ field_errors rules normalized
              in Inr \<lparr> valid = (errs = []), document = VDict normalized, errors = VDict errs \<rparr>)
         | _ \<Rightarrow> Inl DocumentError) \<rparr>"


section \<open>Properties of the decorator\<close>

lemma append_methods_eq:
  "append_methods paths ms acc = acc @ map (\<lambda>m. VTuple [VList paths, m]) ms"
  by (induction ms arbitrary: acc) simp_all

lemma options_appended_idem:
  "options_appended kw (options_appended kw xs) = options_appended kw xs"
  by (simp add: options_appended_def)

lemma registered_verbs_append:
  "registered_verbs (xs @ ys) = registered_verbs xs @ registered_verbs ys"
  by (induction xs) (simp_all add: registered_verbs_def map_filter_simps split: option.splits)

lemma registered_verbs_group:
  "registered_verbs (map (\<lambda>m. VTuple [VList ps, m]) ms) = ms"
  by (induction ms) (simp_all add: registered_verbs_def map_filter_simps)

lemma grown_refl: "grown kw st st"
  by (simp add: grown_def)

lemma grown_append_options:
  assumes "grown kw st st'"
  shows "grown kw st (append_options kw v st')"
proof (cases v)
  case (Plain x)
  with assms show ?thesis by (simp add: append_options_def)
next
  case (ListAt b)
  from assms have "st' b = st b \<or> st' b = options_appended kw (st b)"
    by (simp add: grown_def)
  then have "options_appended kw (st' b) = options_appended kw (st b)"
    by (auto simp: options_appended_idem)
  with assms show ?thesis
    by (simp add: ListAt append_options_def grown_def)
qed

lemma grown_methods:
  assumes "grown kw st st'"
  shows "options_appended kw (read_list st' v) = options_appended kw (read_list st v)"
proof (cases v)
  case (Plain x)
  then show ?thesis by (simp add: read_list_def)
next
  case (ListAt a)
  from assms have "st' a = st a \<or> st' a = options_appended kw (st a)"
    by (simp add: grown_def)
  then show ?thesis
    by (auto simp: ListAt read_list_def options_appended_idem)
qed

lemma compute_routes_verbs:
  assumes "grown kw st st'"
  shows "registered_verbs (fst (compute_routes kw specs st' acc))
         = registered_verbs acc @ concat (map (\<lambda>(p, v). options_appended kw (read_list st v)) specs)"
  using assms
proof (induction specs arbitrary: st' acc)
  case Nil
  show ?case by simp
next
  case (Cons s specs)
  obtain p v where s: "s = (p, v)" by (cases s)
  have g: "grown kw st (append_options kw v st')"
    using Cons.prems by (rule grown_append_options)
  show ?case
    by (simp add: s Let_def Cons.IH [OF g] append_methods_eq registered_verbs_append
        registered_verbs_group grown_methods [OF Cons.prems])
qed

lemma append_options_elsewhere:
  assumes "\<forall>a. v = ListAt a \<longrightarrow> a \<in> V" and "b \<notin> V"
  shows "append_options kw v st b = st b"
  using assms by (cases v) (auto simp: append_options_def)

lemma compute_routes_grouped:
  assumes "grown kw st st'" and "\<forall>a. a \<notin> V \<longrightarrow> st' a = st a"
    and "\<forall>a. ListAt a \<in> snd ` set specs \<longrightarrow> a \<in> V"
    and "\<forall>a. ListAt a \<in> fst ` set specs \<longrightarrow> a \<notin> V"
  shows "fst (compute_routes kw specs st' acc) = acc @ grouped_routes kw st specs"
  using assms
proof (induction specs arbitrary: st' acc)
  case Nil
  show ?case by (simp add: grouped_routes_def)
next
  case (Cons s specs)
  obtain p v where s: "s = (p, v)" by (cases s)
  let ?st'' = "append_options kw v st'"
  from Cons.prems(3) have v: "\<forall>a. v = ListAt a \<longrightarrow> a \<in> V"
    by (simp add: s)
  have g: "grown kw st ?st''"
    using Cons.prems(1) by (rule grown_append_options)
  have out: "\<forall>a. a \<notin> V \<longrightarrow> ?st'' a = st a"
    using Cons.prems(2) append_options_elsewhere [OF v] by simp
  have paths: "read_list ?st'' p = read_list st p"
  proof (cases p)
    case (Plain x)
    then show ?thesis by (simp add: read_list_def)
  next
    case (ListAt b)
    with Cons.prems(4) have "b \<notin> V" by (simp add: s)
    with out show ?thesis by (simp add: ListAt read_list_def)
  qed
  have rest: "fst (compute_routes kw specs ?st'' acc') = acc' @ grouped_routes kw st specs" for acc'
    using Cons.prems(3,4) by (intro Cons.IH [OF g out]) (auto simp: s)
  have "grouped_routes kw st (s # specs) =
        map (\<lambda>m. VTuple [VList (read_list st p), m]) (options_appended kw (read_list st v))
        @ grouped_routes kw st specs"
    by (simp add: grouped_routes_def s)
  then show ?case
    by (simp add: s Let_def rest append_methods_eq paths grown_methods [OF Cons.prems(1)])
qed

lemma map_of_dict_update_notin:
  "k \<notin> fst ` set kw \<Longrightarrow> map_of (dict_update d kw) k = map_of d k"
proof (induction kw arbitrary: d)
  case Nil
  show ?case by simp
next
  case (Cons a kw)
  obtain k' v' where a: "a = (k', v')" by (cases a)
  from Cons.prems have "k \<noteq> k'" and "k \<notin> fst ` set kw" by (auto simp: a)
  then show ?case using Cons.IH by (simp add: a update_conv')
qed

lemma attached_routes:
  assumes "''routes'' \<notin> fst ` set kw"
  shows "attached (decorator st specs ip op kw f) ''routes''
         = Some (VList (fst (compute_routes kw specs st [])))"
  using assms
  by (simp add: attached_def decorator_def map_of_dict_update_notin split: prod.splits)

text \<open>
  Claim C1, as the code has it. The \<open>routes\<close> entry of the attached metadata holds, for
  each route specification in order and for each verb of its normalized verb list in order
  (\<open>OPTIONS\<close> appended when \<open>cors\<close> is truthy and \<open>OPTIONS\<close> is not listed), one pair
  of the whole normalized path list and that verb. The path list is not split into
  individual paths, and equal pairs are kept. This holds when no list object is both a path
  list and a verb list of the registration (the append to a verb list is in place, and
  would show in such a path list), and the options have no key \<open>routes\<close>.
\<close>

theorem routes_entry_grouped:
  assumes "''routes'' \<notin> fst ` set kw" and "no_list_is_path_and_verb_list specs"
  shows "attached (decorator st specs ip op kw f) ''routes'' = Some (VList (grouped_routes kw st specs))"
proof -
  let ?V = "{a. ListAt a \<in> snd ` set specs}"
  have "a \<notin> ?V" if "ListAt a \<in> fst ` set specs" for a
  proof -
    from that have "ListAt a \<in> set (map fst specs)" by simp
    with assms(2) have "(case ListAt a of ListAt a \<Rightarrow> False | Plain v \<Rightarrow> True)
                        \<or> ListAt a \<notin> snd ` set specs"
      unfolding no_list_is_path_and_verb_list_def list_all_iff by blast
    then show ?thesis by simp
  qed
  then have "\<forall>a. ListAt a \<in> fst ` set specs \<longrightarrow> a \<notin> ?V"
    by blast
  then have "fst (compute_routes kw specs st []) = [] @ grouped_routes kw st specs"
    by (intro compute_routes_grouped [where V = ?V]) (simp_all add: grown_refl)
  with attached_routes [OF assms(1), of st specs ip op f] show ?thesis by simp
qed

text \<open>
  An instance: two route specifications that share one verb list (the list at address 0),
  with \<open>cors\<close> set. \<open>OPTIONS\<close> is appended once, and both specifications register it.
\<close>

theorem routes_entry_grouped_witness:
  "no_list_is_path_and_verb_list
     [(Plain (VList [VStr ''/a'', VStr ''/b'']), ListAt 0), (Plain (VStr ''/c''), ListAt 0)]
   \<and> attached (decorator ((\<lambda>a. [])(0 := [VStr ''GET'']))
                 [(Plain (VList [VStr ''/a'', VStr ''/b'']), ListAt 0), (Plain (VStr ''/c''), ListAt 0)]
                 VNone VNone [(''cors'', VStr ''*'')] Suc) ''routes''
     = Some (VList [VTuple [VList [VStr ''/a'', VStr ''/b''], VStr ''GET''],
                    VTuple [VList [VStr ''/a'', VStr ''/b''], VStr ''OPTIONS''],
                    VTuple [VList [VStr ''/c''], VStr ''GET''],
                    VTuple [VList [VStr ''/c''], VStr ''OPTIONS'']])"
proof -
  let ?specs = "[(Plain (VList [VStr ''/a'', VStr ''/b'']), ListAt 0), (Plain (VStr ''/c''), ListAt 0)]"
  have n: "no_list_is_path_and_verb_list ?specs"
    by (simp add: no_list_is_path_and_verb_list_def)
  have k: "''routes'' \<notin> fst ` set [(''cors'', VStr ''*'')]"
    by simp
  from routes_entry_grouped [OF k n, of "(\<lambda>a. [])(0 := [VStr ''GET''])" VNone VNone Suc] n
  show ?thesis
    by (simp add: grouped_routes_def options_appended_def read_list_def as_list_def dict_get_def)
qed

text \<open>
  Claim C1 as stated fails: for two paths and one verb the entry has one element that
  carries both paths, where the flattened cross product has two pairs; for one path and a
  verb listed twice the entry has two equal elements, where the deduplicated sequence has one.
\<close>

theorem routes_not_flattened_counterexample:
  "attached (decorator (\<lambda>a. []) [(Plain (VList [VStr ''/a'', VStr ''/b'']), Plain (VStr ''GET''))]
               VNone VNone [] Suc) ''routes''
     = Some (VList [VTuple [VList [VStr ''/a'', VStr ''/b''], VStr ''GET'']])
   \<and> spec_route_pairs [] (\<lambda>a. []) [(Plain (VList [VStr ''/a'', VStr ''/b'']), Plain (VStr ''GET''))]
     = [VTuple [VStr ''/a'', VStr ''GET''], VTuple [VStr ''/b'', VStr ''GET'']]
   \<and> attached (decorator (\<lambda>a. []) [(Plain (VStr ''/a''), Plain (VList [VStr ''GET'', VStr ''GET'']))]
               VNone VNone [] Suc) ''routes''
     = Some (VList [VTuple [VList [VStr ''/a''], VStr ''GET''], VTuple [VList [VStr ''/a''], VStr ''GET'']])
   \<and> spec_route_pairs [] (\<lambda>a. []) [(Plain (VStr ''/a''), Plain (VList [VStr ''GET'', VStr ''GET'']))]
     = [VTuple [VStr ''/a'', VStr ''GET'']]"
  by (simp add: attached_def decorator_def read_list_def append_options_def
      dict_get_def as_list_def options_appended_def spec_route_pairs_def)

text \<open>
  A list that is both the path list and the verb list of a route specification shows the
  appended \<open>OPTIONS\<close> among the paths: the copy of the path list is taken after the
  append.
\<close>

lemma shared_path_and_verb_list:
  "attached (decorator ((\<lambda>a. [])(0 := [VStr ''GET''])) [(ListAt 0, ListAt 0)]
               VNone VNone [(''cors'', VStr ''*'')] Suc) ''routes''
     = Some (VList [VTuple [VList [VStr ''GET'', VStr ''OPTIONS''], VStr ''GET''],
                    VTuple [VList [VStr ''GET'', VStr ''OPTIONS''], VStr ''OPTIONS'']])
   \<and> snd (decorator ((\<lambda>a. [])(0 := [VStr ''GET''])) [(ListAt 0, ListAt 0)]
               VNone VNone [(''cors'', VStr ''*'')] Suc) 0 = [VStr ''GET'', VStr ''OPTIONS'']"
  by (simp add: attached_def decorator_def read_list_def append_options_def
      dict_get_def options_appended_def)

text \<open>
  Claim C9. Whenever decoration succeeds, calling the wrapper on an argument list gives what
  the decorated function gives on it (its value, or the exception it raises, both being part
  of the function's result), and the attribute \<open>original_func\<close> of the wrapper is the
  decorated function itself.
\<close>

theorem wrapper_behaves_as_original:
  assumes "rest_method args kwargs f = Inr w"
  shows "(\<forall>x. call w x = f x) \<and> original_func w = f"
  using assms
  by (auto simp: rest_method_def decorator_def response_wrap_def split: sum.splits prod.splits)

text \<open>
  An instance: the successor function registered for \<open>GET /a\<close>.
\<close>

theorem wrapper_behaves_as_original_witness:
  "\<exists>w. rest_method [VList [VTuple [VStr ''/a'', VStr ''GET'']]] [(''auth'', VStr ''public'')] Suc = Inr w
       \<and> call w 41 = 42 \<and> original_func w = Suc"
proof -
  obtain w where w: "rest_method [VList [VTuple [VStr ''/a'', VStr ''GET'']]] [(''auth'', VStr ''public'')] Suc = Inr w"
    by (simp add: rest_method_def bind_method_def bind_param_def param_names_def)
  from wrapper_behaves_as_original [OF w] have "call w 41 = Suc 41" and "original_func w = Suc"
    by simp_all
  with w show ?thesis by simp
qed

text \<open>
  Claim C8, as the code has it. For each route specification, the verbs registered for it
  are the given verbs, followed by one \<open>OPTIONS\<close> exactly when the value of \<open>cors\<close> is
  truthy and \<open>OPTIONS\<close> is not among the given verbs; the pairs in the attached
  \<open>routes\<close> entry are computed from that extended list. Hence \<open>OPTIONS\<close> is among the
  registered verbs if and only if there is a route specification and \<open>cors\<close> is truthy, or
  some route specification lists \<open>OPTIONS\<close> itself. The given verbs are the verb lists as
  the caller passed them (in the store \<open>st\<close>); the options have no key \<open>routes\<close>.
\<close>

theorem options_registered_when_cors_truthy:
  assumes "''routes'' \<notin> fst ` set kw"
  shows "\<exists>rs. attached (decorator st specs ip op kw f) ''routes'' = Some (VList rs) \<and>
        registered_verbs rs =
          concat (map (\<lambda>(p, v). read_list st v @
             (if truthy (dict_get kw ''cors'' VNone) \<and> VStr ''OPTIONS'' \<notin> set (read_list st v)
              then [VStr ''OPTIONS''] else [])) specs) \<and>
        (VStr ''OPTIONS'' \<in> set (registered_verbs rs) \<longleftrightarrow>
           (\<exists>(p, v) \<in> set specs.
              truthy (dict_get kw ''cors'' VNone) \<or> VStr ''OPTIONS'' \<in> set (read_list st v)))"
proof -
  let ?rs = "fst (compute_routes kw specs st [])"
  have verbs: "registered_verbs ?rs = concat (map (\<lambda>(p, v). options_appended kw (read_list st v)) specs)"
    using compute_routes_verbs [OF grown_refl, where specs = specs and acc = "[]"]
    by (simp add: registered_verbs_def map_filter_simps)
  have 1: "attached (decorator st specs ip op kw f) ''routes'' = Some (VList ?rs)"
    by (rule attached_routes [OF assms])
  have 2: "registered_verbs ?rs =
          concat (map (\<lambda>(p, v). read_list st v @
             (if truthy (dict_get kw ''cors'' VNone) \<and> VStr ''OPTIONS'' \<notin> set (read_list st v)
              then [VStr ''OPTIONS''] else [])) specs)"
    unfolding verbs
    by (rule arg_cong [where f = concat]) (auto simp: options_appended_def)
  have 3: "VStr ''OPTIONS'' \<in> set (registered_verbs ?rs) \<longleftrightarrow>
           (\<exists>(p, v) \<in> set specs.
              truthy (dict_get kw ''cors'' VNone) \<or> VStr ''OPTIONS'' \<in> set (read_list st v))"
    unfolding verbs
    by (auto simp: options_appended_def split: if_splits)
  from 1 2 3 show ?thesis by blast
qed

text \<open>
  An instance with \<open>cors\<close> set: \<open>OPTIONS\<close> is added after \<open>GET\<close> and is not
  added a second time where it is listed.
\<close>

theorem options_registered_when_cors_truthy_witness:
  "\<exists>rs. attached (decorator (\<lambda>a. [])
                 [(Plain (VStr ''/a''), Plain (VStr ''GET'')),
                  (Plain (VStr ''/b''), Plain (VList [VStr ''OPTIONS'', VStr ''POST'']))]
                 VNone VNone [(''cors'', VStr ''*'')] Suc) ''routes'' = Some (VList rs)
      \<and> registered_verbs rs = [VStr ''GET'', VStr ''OPTIONS'', VStr ''OPTIONS'', VStr ''POST'']"
proof -
  have k: "''routes'' \<notin> fst ` set [(''cors'', VStr ''*'')]"
    by simp
  from options_registered_when_cors_truthy [OF k, of "\<lambda>a. []"
      "[(Plain (VStr ''/a''), Plain (VStr ''GET'')),
        (Plain (VStr ''/b''), Plain (VList [VStr ''OPTIONS'', VStr ''POST'']))]" VNone VNone Suc]
  show ?thesis
    by (auto simp: read_list_def as_list_def dict_get_def)
qed

text \<open>
  Claim C8 as stated fails. With \<open>cors\<close> set to the empty string the option is set, but
  its value is falsy and \<open>OPTIONS\<close> is not registered; and a registration without route
  specifications registers no verb at all, whatever \<open>cors\<close> is.
\<close>

theorem options_not_registered_counterexample:
  "attached (decorator (\<lambda>a. []) [(Plain (VStr ''/a''), Plain (VStr ''GET''))]
               VNone VNone [(''cors'', VStr [])] Suc) ''routes''
     = Some (VList [VTuple [VList [VStr ''/a''], VStr ''GET'']])
   \<and> attached (decorator (\<lambda>a. []) [] VNone VNone [(''cors'', VStr ''*'')] Suc) ''routes''
     = Some (VList [])"
  by (simp add: attached_def decorator_def read_list_def append_options_def
      dict_get_def as_list_def options_appended_def)


text \<open>
  Through a call of \<open>method\<close> the options never hold one of the names of its parameters:
  a keyword of such a name is bound to the parameter.
\<close>

lemma bind_method_kw:
  assumes "bind_method args kwargs = Inr (r, ip, op, kw)"
  shows "kw = filter (\<lambda>kv. fst kv \<notin> set param_names) kwargs"
  using assms by (auto simp: bind_method_def split: if_splits)

lemma bind_method_reserved:
  assumes "bind_method args kwargs = Inr (r, ip, op, kw)"
  shows "\<forall>n \<in> set param_names. n \<notin> fst ` set kw"
  using bind_method_kw [OF assms] by auto



section \<open>Properties of the transformers\<close>

lemma and_then_Inr [simp]: "and_then (Inr x) k = k x"
  by (simp add: and_then_def)

lemma and_then_Inl [simp]: "and_then (Inl e) k = Inl e"
  by (simp add: and_then_def)

lemma and_then_eq_Inr:
  "and_then r k = Inr y \<longleftrightarrow> (\<exists>x. r = Inr x \<and> k x = Inr y)"
  by (cases r) simp_all

text \<open>
  Claim C6. For a raw payload (bytes) the response is built by \<open>make_response\<close> from the
  payload and exactly four headers, in this order: \<open>Content-Type\<close>, which is the declared
  media type when exactly one is declared and the wildcard otherwise;
  \<open>X-Content-Type-Options: nosniff\<close>; \<open>Content-Disposition\<close>, which is
  \<open>content_disposition("file")\<close>; and \<open>Content-Length\<close>, the number of bytes of the
  payload. A result that is a response object already is returned as it is.
\<close>

theorem binary_to_response_headers:
  "BinaryData_to_response make_response content_disposition (BinaryData_init mediatypes_arg required_arg)
       (Value (VBytes payload))
     = Inr (make_response (VBytes payload)
         [(''Content-Type'', (case as_list mediatypes_arg of [m] \<Rightarrow> m | _ \<Rightarrow> VStr ''*/*'')),
          (''X-Content-Type-Options'', VStr ''nosniff''),
          (''Content-Disposition'', content_disposition ''file''),
          (''Content-Length'', VInt (int (length payload)))])
   \<and> BinaryData_to_response make_response content_disposition self (Response r) = Inr r"
  by (auto simp: BinaryData_to_response_def to_http_response_def BinaryData_init_def
      length_Suc_conv split: list.splits)

text \<open>
  Two instances, with a response represented by its payload and header list: five bytes
  declared as \<open>image/png\<close>, and an empty payload with two declared media types.
\<close>

theorem binary_to_response_headers_witness:
  "BinaryData_to_response Pair (\<lambda>name. VStr (''attachment; filename='' @ name))
       (BinaryData_init (VStr ''image/png'') (VBool False)) (Value (VBytes [137, 80, 78, 71, 13]))
     = Inr (VBytes [137, 80, 78, 71, 13],
         [(''Content-Type'', VStr ''image/png''),
          (''X-Content-Type-Options'', VStr ''nosniff''),
          (''Content-Disposition'', VStr ''attachment; filename=file''),
          (''Content-Length'', VInt 5)])
   \<and> BinaryData_to_response Pair (\<lambda>name. VStr (''attachment; filename='' @ name))
       (BinaryData_init (VList [VStr ''image/png'', VStr ''image/gif'']) (VBool False)) (Value (VBytes []))
     = Inr (VBytes [],
         [(''Content-Type'', VStr ''*/*''),
          (''X-Content-Type-Options'', VStr ''nosniff''),
          (''Content-Disposition'', VStr ''attachment; filename=file''),
          (''Content-Length'', VInt 0)])"
  using binary_to_response_headers [of Pair "\<lambda>name. VStr (''attachment; filename='' @ name)"
      "VStr ''image/png''" "VBool False" "[137, 80, 78, 71, 13]"]
    binary_to_response_headers [of Pair "\<lambda>name. VStr (''attachment; filename='' @ name)"
      "VList [VStr ''image/png'', VStr ''image/gif'']" "VBool False" "[]"]
  by (simp add: as_list_def)

text \<open>
  Claim C2. When the input validator rejects the parameters, \<open>from_params\<close> raises
  \<open>UserError\<close> (the client's fault) with the message \<open>BadRequest %s\<close> filled with the
  validator's errors; when the output validator rejects the handler's result,
  \<open>to_response\<close> raises \<open>SystemError\<close> with the message \<open>Invalid Response %s\<close> filled
  with the errors. The two exceptions are of different classes, and a rejected result never
  raises \<open>UserError\<close>.
\<close>

theorem validation_failure_kinds:
  "(\<forall>v outcome.
      get_cerberus_validator Validator service self Input = Inr v \<and>
      v_validate v params = Inr outcome \<and> \<not> valid outcome \<longrightarrow>
      CerberusValidator_from_params Validator service self params
        = Inl (UserError (Msg ''BadRequest %s'' (errors outcome)))) \<and>
   (\<forall>v outcome.
      get_cerberus_validator Validator service self Output = Inr v \<and>
      v_validate v result = Inr outcome \<and> \<not> valid outcome \<longrightarrow>
      CerberusValidator_to_response Validator service self result
        = Inl (SystemError (Msg ''Invalid Response %s'' (errors outcome))) \<and>
      (\<forall>m. CerberusValidator_to_response Validator service self result \<noteq> Inl (UserError m))) \<and>
   (\<forall>m m'. UserError m \<noteq> SystemError m')"
  by (simp add: CerberusValidator_from_params_def CerberusValidator_to_response_def)

text \<open>
  An instance: a validator built beforehand that rejects every document with an error on
  the field \<open>age\<close>.
\<close>

theorem validation_failure_kinds_witness:
  "CerberusValidator_from_params
      (\<lambda>rules purge. \<lparr> v_schema = VDict rules, v_validate = (\<lambda>d. Inl DocumentError) \<rparr>)
      (\<lambda>name direction. Inl (KeyError name))
      \<lparr> schema = SchemaValidator \<lparr> v_schema = VDict [],
           v_validate = (\<lambda>d. Inr \<lparr> valid = False, document = d,
              errors = VDict [(''age'', VList [VStr ''must be of integer type''])] \<rparr>) \<rparr>,
        is_list = False \<rparr> (VDict [(''age'', VStr ''x'')])
     = Inl (UserError (Msg ''BadRequest %s'' (VDict [(''age'', VList [VStr ''must be of integer type''])])))
   \<and> CerberusValidator_to_response
      (\<lambda>rules purge. \<lparr> v_schema = VDict rules, v_validate = (\<lambda>d. Inl DocumentError) \<rparr>)
      (\<lambda>name direction. Inl (KeyError name))
      \<lparr> schema = SchemaValidator \<lparr> v_schema = VDict [],
           v_validate = (\<lambda>d. Inr \<lparr> valid = False, document = d,
              errors = VDict [(''age'', VList [VStr ''must be of integer type''])] \<rparr>) \<rparr>,
        is_list = False \<rparr> (VDict [(''age'', VStr ''x'')])
     = Inl (SystemError (Msg ''Invalid Response %s'' (VDict [(''age'', VList [VStr ''must be of integer type''])])))"
proof -
  let ?mk = "\<lambda>rules purge. \<lparr> v_schema = VDict rules, v_validate = (\<lambda>d. Inl DocumentError) \<rparr>"
  let ?service = "\<lambda>name (direction :: direction). (Inl (KeyError name) :: error + schema_source)"
  let ?v = "\<lparr> v_schema = VDict [],
           v_validate = (\<lambda>d. Inr \<lparr> valid = False, document = d,
              errors = VDict [(''age'', VList [VStr ''must be of integer type''])] \<rparr>) \<rparr>"
  let ?self = "\<lparr> schema = SchemaValidator ?v, is_list = False \<rparr>"
  have g: "get_cerberus_validator ?mk ?service ?self d = Inr ?v" for d
    by (simp add: get_cerberus_validator_def)
  from validation_failure_kinds [of ?mk ?service ?self "VDict [(''age'', VStr ''x'')]"
      "VDict [(''age'', VStr ''x'')]"] g
  show ?thesis by simp
qed

lemma query_parameter_name:
  assumes "query_parameter json_schema pname spec = Inr p"
  shows "py_getitem p ''name'' = exposed_name (pname, spec)"
proof -
  from assms obtain is_required nullable dflt sch t where t: "py_getitem spec ''type'' = Inr t"
    and p: "p = VDict (let params = AList.update ''schema'' sch
                      [(''name'', VStr pname), (''in'', VStr ''query''),
                       (''required'', VBool is_required), (''allowEmptyValue'', nullable),
                       (''default'', dflt)]
                in if t = VStr ''array'' then AList.update ''name'' (VStr (pname @ ''[]'')) params
                   else params)"
    unfolding query_parameter_def and_then_eq_Inr Let_def by auto
  have "exposed_name (pname, spec) = Inr (VStr (if t = VStr ''array'' then pname @ ''[]'' else pname))"
    by (simp add: exposed_name_def t)
  moreover have "py_getitem p ''name'' = Inr (VStr (if t = VStr ''array'' then pname @ ''[]'' else pname))"
    by (simp add: p py_getitem_def Let_def update_conv')
  ultimately show ?thesis by simp
qed

lemma query_parameters_names:
  assumes "query_parameters json_schema items acc = Inr ps"
  shows "map (\<lambda>p. py_getitem p ''name'') ps = map (\<lambda>p. py_getitem p ''name'') acc @ map exposed_name items"
  using assms
proof (induction items arbitrary: acc)
  case Nil
  then show ?case by simp
next
  case (Cons a items)
  obtain pname spec where a: "a = (pname, spec)" by (cases a)
  from Cons.prems obtain p where p: "query_parameter json_schema pname spec = Inr p"
    and rest: "query_parameters json_schema items (acc @ [p]) = Inr ps"
    by (auto simp: a and_then_eq_Inr)
  from Cons.IH [OF rest] query_parameter_name [OF p] show ?case
    by (simp add: a)
qed

lemma map_of_in_keys:
  assumes "k \<in> fst ` set d"
  shows "\<exists>v. map_of d k = Some v"
  using assms by (metis map_of_eq_None_iff not_Some_eq)

lemma parameter_schema_total:
  assumes "well_formed_spec spec"
  shows "\<exists>sch. parameter_schema spec = Inr sch"
proof -
  from assms obtain d where d: "spec = VDict d" and ty: "''type'' \<in> fst ` set d"
    and nested: "(\<exists>x. dict_get d ''schema'' VNone = VDict x) \<or> \<not> truthy (dict_get d ''schema'' VNone)"
    by (auto simp: well_formed_spec_def split: pyval.splits)
  from map_of_in_keys [OF ty] obtain t where t: "map_of d ''type'' = Some t" ..
  let ?first = "if truthy (dict_get d ''schema'' VNone) then Inr (dict_get d ''schema'' VNone)
                else and_then (py_getitem (VDict d) ''type'') (\<lambda>t. Inr (VDict [(''type'', t)]))"
  have "\<exists>s1. ?first = Inr (VDict s1)"
  proof (cases "truthy (dict_get d ''schema'' VNone)")
    case True
    with nested show ?thesis by auto
  next
    case False
    then show ?thesis by (simp add: t py_getitem_def)
  qed
  then obtain s1 where s1: "?first = Inr (VDict s1)" ..
  let ?second = "if truthy (dict_get d ''items'' VNone)
                 then py_setitem (VDict s1) ''items'' (dict_get d ''items'' VNone) else Inr (VDict s1)"
  have "\<exists>s2. ?second = Inr (VDict s2)"
    by (simp add: py_setitem_def)
  then obtain s2 where s2: "?second = Inr (VDict s2)" ..
  let ?third = "if ''enum'' \<in> fst ` set d
                then and_then (py_getitem (VDict d) ''enum'') (\<lambda>enum. py_setitem (VDict s2) ''enum'' enum)
                else Inr (VDict s2)"
  have third: "\<exists>sch. ?third = Inr sch"
  proof (cases "''enum'' \<in> fst ` set d")
    case True
    from map_of_in_keys [OF True] obtain e where "map_of d ''enum'' = Some e" ..
    then show ?thesis by (simp add: True py_getitem_def py_setitem_def)
  next
    case False
    then show ?thesis by simp
  qed
  have "parameter_schema (VDict d) = ?third"
    unfolding parameter_schema_def
    by (simp add: py_get_def py_contains_str_def s1 s2 split del: if_split)
  with third show ?thesis by (simp add: d)
qed

lemma query_parameter_total:
  assumes "py_getitem json_schema ''required'' = Inr (VList req)" and "well_formed_spec spec"
  shows "\<exists>p. query_parameter json_schema pname spec = Inr p"
proof -
  from assms(2) obtain d where d: "spec = VDict d" and ty: "''type'' \<in> fst ` set d"
    by (auto simp: well_formed_spec_def split: pyval.splits)
  from map_of_in_keys [OF ty] obtain t where t: "py_getitem spec ''type'' = Inr t"
    by (auto simp: d py_getitem_def)
  from parameter_schema_total [OF assms(2)] obtain sch where sch: "parameter_schema spec = Inr sch" ..
  show ?thesis
    by (simp add: query_parameter_def assms(1) py_contains_str_def sch t Let_def)
      (simp add: d py_get_def)
qed

lemma query_parameters_total:
  assumes "py_getitem json_schema ''required'' = Inr (VList req)"
    and "list_all (\<lambda>ps. well_formed_spec (snd ps)) items"
  shows "\<exists>ps. query_parameters json_schema items acc = Inr ps"
  using assms(2)
proof (induction items arbitrary: acc)
  case Nil
  show ?case by simp
next
  case (Cons a items)
  obtain pname spec where a: "a = (pname, spec)" by (cases a)
  from Cons.prems have "well_formed_spec spec" and rest: "list_all (\<lambda>ps. well_formed_spec (snd ps)) items"
    by (simp_all add: a)
  from query_parameter_total [OF assms(1) this(1)]
  obtain p where "query_parameter json_schema pname spec = Inr p" ..
  with Cons.IH [OF rest] show ?case by (simp add: a)
qed

text \<open>
  Claim C7. Let the converted input schema have the properties \<open>props\<close>. Whenever
  \<open>to_openapi_query_parameters\<close> returns, it returns one parameter for each property, in
  order, and the name of the parameter is the name of the property followed by \<open>[]\<close> if
  the type of the property is \<open>array\<close>, and the name of the property itself otherwise. It
  does return when the converted schema is well formed (every property has a type).
\<close>

theorem array_parameters_get_brackets:
  assumes "to_json_schema Validator service cerberus_to_json self Input = Inr json_schema"
    and "py_getitem json_schema ''properties'' = Inr (VDict props)"
  shows "(well_formed_json_schema json_schema \<longrightarrow>
            (\<exists>ps. to_openapi_query_parameters Validator service cerberus_to_json self = Inr ps)) \<and>
         (\<forall>ps. to_openapi_query_parameters Validator service cerberus_to_json self = Inr ps \<longrightarrow>
            map (\<lambda>p. py_getitem p ''name'') ps = map exposed_name props)"
proof -
  have run: "to_openapi_query_parameters Validator service cerberus_to_json self
             = query_parameters json_schema props []"
    by (simp add: to_openapi_query_parameters_def assms py_items_def)
  have "\<exists>ps. query_parameters json_schema props [] = Inr ps" if wf: "well_formed_json_schema json_schema"
  proof -
    from wf obtain d where js: "json_schema = VDict d"
      by (cases json_schema) (simp_all add: well_formed_json_schema_def)
    from wf have r: "case map_of d ''required'' of Some (VList _) \<Rightarrow> True | _ \<Rightarrow> False"
      and p: "case map_of d ''properties'' of
                Some (VDict props) \<Rightarrow> list_all (\<lambda>ps. well_formed_spec (snd ps)) props
              | _ \<Rightarrow> False"
      by (simp_all add: well_formed_json_schema_def js)
    from assms(2) have "map_of d ''properties'' = Some (VDict props)"
      by (simp add: js py_getitem_def split: option.splits)
    with p have props: "list_all (\<lambda>ps. well_formed_spec (snd ps)) props"
      by simp
    from r have "\<exists>req. map_of d ''required'' = Some (VList req)"
      by (cases "map_of d ''required''") (auto split: pyval.splits)
    then obtain req where "py_getitem json_schema ''required'' = Inr (VList req)"
      by (auto simp: js py_getitem_def)
    from this props show ?thesis by (rule query_parameters_total)
  qed
  moreover have "map (\<lambda>p. py_getitem p ''name'') ps = map exposed_name props"
    if "query_parameters json_schema props [] = Inr ps" for ps
    using query_parameters_names [OF that] by simp
  ultimately show ?thesis
    unfolding run by blast
qed

text \<open>
  An instance: a converted schema with the array property \<open>tags\<close> and the integer
  property \<open>limit\<close>.
\<close>

theorem array_parameters_get_brackets_witness:
  "\<exists>ps. to_openapi_query_parameters
          (\<lambda>rules purge. \<lparr> v_schema = VDict rules, v_validate = (\<lambda>d. Inl DocumentError) \<rparr>)
          (\<lambda>name direction. Inl (KeyError name))
          (\<lambda>s. Inr (VDict [(''type'', VStr ''object''),
                            (''required'', VList [VStr ''tags'']),
                            (''properties'', VDict
                               [(''tags'', VDict [(''type'', VStr ''array''),
                                                  (''items'', VDict [(''type'', VStr ''string'')])]),
                                (''limit'', VDict [(''type'', VStr ''integer'')])])]))
          \<lparr> schema = SchemaRules [(''tags'', VDict [(''type'', VStr ''list'')]),
                                   (''limit'', VDict [(''type'', VStr ''integer'')])],
            is_list = False \<rparr> = Inr ps
      \<and> map (\<lambda>p. py_getitem p ''name'') ps = [Inr (VStr ''tags[]''), Inr (VStr ''limit'')]"
proof -
  let ?mk = "\<lambda>rules (purge :: bool). \<lparr> v_schema = VDict rules, v_validate = (\<lambda>d. Inl DocumentError) \<rparr>"
  let ?service = "\<lambda>name (direction :: direction). (Inl (KeyError name) :: error + schema_source)"
  let ?props = "[(''tags'', VDict [(''type'', VStr ''array''),
                                   (''items'', VDict [(''type'', VStr ''string'')])]),
                 (''limit'', VDict [(''type'', VStr ''integer'')])]"
  let ?js = "VDict [(''type'', VStr ''object''), (''required'', VList [VStr ''tags'']),
                    (''properties'', VDict ?props)]"
  let ?c2j = "\<lambda>s :: pyval. (Inr ?js :: error + pyval)"
  let ?self = "\<lparr> schema = SchemaRules [(''tags'', VDict [(''type'', VStr ''list'')]),
                                   (''limit'', VDict [(''type'', VStr ''integer'')])],
                 is_list = False \<rparr>"
  have a: "to_json_schema ?mk ?service ?c2j ?self Input = Inr ?js"
    by (simp add: to_json_schema_def get_cerberus_validator_def)
  have b: "py_getitem ?js ''properties'' = Inr (VDict ?props)"
    by (simp add: py_getitem_def)
  have wf: "well_formed_json_schema ?js"
    by (simp add: well_formed_json_schema_def well_formed_spec_def dict_get_def)
  have names: "map exposed_name ?props = [Inr (VStr ''tags[]''), Inr (VStr ''limit'')]"
    by (simp add: exposed_name_def py_getitem_def)
  from array_parameters_get_brackets [OF a b] wf names show ?thesis
    by metis
qed

section \<open>Properties of the security plugin\<close>

lemma add_security_secured:
  assumes "security_list params = Some xs"
  shows "\<exists>params'. add_security params = Inr params' \<and> secured (m, params) (m, params')"
proof -
  from assms obtain d where d: "params = VDict d" and s: "dict_get d ''security'' (VList []) = VList xs"
    by (auto simp: security_list_def split: pyval.splits)
  let ?d' = "AList.update ''security'' (VList (xs @ [api_key_requirement])) d"
  have "add_security params = Inr (VDict ?d')"
    by (simp add: add_security_def d s)
  moreover have "secured (m, params) (m, VDict ?d')"
  proof -
    have before: "security_list (VDict d) = Some xs"
      by (simp add: security_list_def s)
    have after: "security_list (VDict ?d') = Some (xs @ [api_key_requirement])"
      by (simp add: security_list_def dict_get_def update_conv')
    have other: "other_entry (VDict ?d') k = other_entry (VDict d) k" if "k \<noteq> ''security''" for k
      using that by (simp add: other_entry_def update_conv')
    show ?thesis
      by (simp add: secured_def d before after other)
  qed
  ultimately show ?thesis by blast
qed

lemma secure_operations_secured:
  assumes "list_all (\<lambda>mp. security_list (snd mp) \<noteq> None) ops"
  shows "\<exists>ops'. secure_operations ops = Inr ops' \<and> list_all2 secured ops ops'"
  using assms
proof (induction ops)
  case Nil
  show ?case by simp
next
  case (Cons a ops)
  obtain m params where a: "a = (m, params)" by (cases a)
  from Cons.prems obtain xs where "security_list params = Some xs"
    and rest: "list_all (\<lambda>mp. security_list (snd mp) \<noteq> None) ops"
    by (auto simp: a)
  from add_security_secured [OF this(1)] obtain params'
    where p: "add_security params = Inr params'" and sp: "secured (m, params) (m, params')"
    by blast
  from Cons.IH [OF rest] obtain ops' where "secure_operations ops = Inr ops'"
    and "list_all2 secured ops ops'"
    by blast
  with p sp show ?case by (simp add: a)
qed

text \<open>
  Claim C4. Let the keyword arguments carry routing metadata (a dict that is not empty), and
  let \<open>auth\<close> be its entry \<open>auth\<close>, or the default of the whole specification when it has
  none. If \<open>auth\<close> is \<open>api_key\<close>, every operation gets exactly one requirement
  \<open>{"api_key": []}\<close> appended to its security list (a list that is created when the
  operation has none) and is otherwise unchanged. If \<open>auth\<close> is anything else, the
  operations are left as they are.
\<close>

theorem api_key_requirement_added:
  assumes "dict_get kwargs ''routing'' VNone = VDict metadata" and "metadata \<noteq> []"
  shows "(dict_get metadata ''auth'' (dict_get spec_params ''default_auth'' VNone) = VStr ''api_key'' \<and>
          list_all (\<lambda>mp. security_list (snd mp) \<noteq> None) ops \<longrightarrow>
            (\<exists>ops'. operation_helper base spec_params path (VDict ops) kwargs = Inr (VDict ops') \<and>
                   list_all2 secured ops ops')) \<and>
         (dict_get metadata ''auth'' (dict_get spec_params ''default_auth'' VNone) \<noteq> VStr ''api_key'' \<longrightarrow>
            operation_helper base spec_params path operations kwargs = Inr operations)"
proof (intro conjI impI)
  assume a: "dict_get metadata ''auth'' (dict_get spec_params ''default_auth'' VNone) = VStr ''api_key'' \<and>
          list_all (\<lambda>mp. security_list (snd mp) \<noteq> None) ops"
  show "\<exists>ops'. operation_helper base spec_params path (VDict ops) kwargs = Inr (VDict ops') \<and>
                   list_all2 secured ops ops'"
  proof (cases "ops = []")
    case True
    then show ?thesis
      by (simp add: operation_helper_def assms)
  next
    case False
    from a secure_operations_secured obtain ops' where "secure_operations ops = Inr ops'"
      and "list_all2 secured ops ops'"
      by blast
    with a False show ?thesis
      by (simp add: operation_helper_def assms py_get_def py_items_def)
  qed
next
  assume "dict_get metadata ''auth'' (dict_get spec_params ''default_auth'' VNone) \<noteq> VStr ''api_key''"
  then show "operation_helper base spec_params path operations kwargs = Inr operations"
    by (simp add: operation_helper_def assms py_get_def)
qed

text \<open>
  Two instances, for operations \<open>get\<close> (without a security list) and \<open>post\<close> (with
  one): metadata without \<open>auth\<close> under the default \<open>api_key\<close>, and metadata with
  \<open>auth\<close> equal to \<open>public\<close>.
\<close>

theorem api_key_requirement_added_witness:
  "(\<exists>ops'. operation_helper (\<lambda>path operations kwargs. Inl PluginMethodNotImplementedError)
             [(''default_auth'', VStr ''api_key'')] (VStr ''/partner'')
             (VDict [(''get'', VDict [(''summary'', VStr ''read'')]),
                     (''post'', VDict [(''security'', VList [VDict [(''basic'', VList [])]])])])
             [(''routing'', VDict [(''routes'', VList [])])] = Inr (VDict ops')
          \<and> list_all2 secured
               [(''get'', VDict [(''summary'', VStr ''read'')]),
                (''post'', VDict [(''security'', VList [VDict [(''basic'', VList [])]])])] ops'
          \<and> ops' = [(''get'', VDict [(''summary'', VStr ''read''),
                                      (''security'', VList [VDict [(''api_key'', VList [])]])]),
                     (''post'', VDict [(''security'', VList [VDict [(''basic'', VList [])],
                                                             VDict [(''api_key'', VList [])]])])])
   \<and> operation_helper (\<lambda>path operations kwargs. Inl PluginMethodNotImplementedError)
             [(''default_auth'', VStr ''api_key'')] (VStr ''/partner'')
             (VDict [(''get'', VDict [(''summary'', VStr ''read'')])])
             [(''routing'', VDict [(''auth'', VStr ''public'')])]
       = Inr (VDict [(''get'', VDict [(''summary'', VStr ''read'')])])"
proof -
  let ?base = "\<lambda>(path :: pyval) (operations :: pyval) (kwargs :: pydict).
                 (Inl PluginMethodNotImplementedError :: error + pyval)"
  let ?params = "[(''default_auth'', VStr ''api_key'')]"
  let ?ops = "[(''get'', VDict [(''summary'', VStr ''read'')]),
               (''post'', VDict [(''security'', VList [VDict [(''basic'', VList [])]])])]"
  have 1: "dict_get [(''routing'', VDict [(''routes'', VList [])])] ''routing'' VNone
           = VDict [(''routes'', VList [])]"
    and 2: "dict_get [(''routing'', VDict [(''auth'', VStr ''public'')])] ''routing'' VNone
           = VDict [(''auth'', VStr ''public'')]"
    by (simp_all add: dict_get_def)
  have wf: "list_all (\<lambda>mp. security_list (snd mp) \<noteq> None) ?ops"
    by (simp add: security_list_def dict_get_def)
  have auth: "dict_get [(''routes'', VList [])] ''auth'' (dict_get ?params ''default_auth'' VNone)
              = VStr ''api_key''"
    by (simp add: dict_get_def)
  from api_key_requirement_added [OF 1, of ?params ?ops ?base "VStr ''/partner''"] wf auth
  obtain ops' where r: "operation_helper ?base ?params (VStr ''/partner'') (VDict ?ops)
                          [(''routing'', VDict [(''routes'', VList [])])] = Inr (VDict ops')"
    and s: "list_all2 secured ?ops ops'"
    by auto
  have "operation_helper ?base ?params (VStr ''/partner'') (VDict ?ops)
          [(''routing'', VDict [(''routes'', VList [])])]
        = Inr (VDict [(''get'', VDict [(''summary'', VStr ''read''),
                                      (''security'', VList [VDict [(''api_key'', VList [])]])]),
                     (''post'', VDict [(''security'', VList [VDict [(''basic'', VList [])],
                                                             VDict [(''api_key'', VList [])]])])])"
    by (simp add: operation_helper_def dict_get_def py_get_def py_items_def add_security_def
        api_key_requirement_def)
  with r have v: "ops' = [(''get'', VDict [(''summary'', VStr ''read''),
                                      (''security'', VList [VDict [(''api_key'', VList [])]])]),
                     (''post'', VDict [(''security'', VList [VDict [(''basic'', VList [])],
                                                             VDict [(''api_key'', VList [])]])])]"
    by simp
  have "operation_helper ?base ?params (VStr ''/partner'')
             (VDict [(''get'', VDict [(''summary'', VStr ''read'')])])
             [(''routing'', VDict [(''auth'', VStr ''public'')])]
       = Inr (VDict [(''get'', VDict [(''summary'', VStr ''read'')])])"
    using api_key_requirement_added [OF 2, of ?params ?ops ?base "VStr ''/partner''"
        "VDict [(''get'', VDict [(''summary'', VStr ''read'')])]"]
    by (simp add: dict_get_def)
  with r s v show ?thesis by blast
qed

text \<open>
  Claim C5, as the code has it. When the keyword arguments carry no routing metadata (none,
  or a falsy value), the hook first calls the helper of the base class with the same
  arguments. An exception of that call leaves the hook as it is; if the call returns and
  the operations are empty, the hook returns and adds nothing.
\<close>

theorem no_routing_defers_to_base:
  assumes "\<not> truthy (dict_get kwargs ''routing'' VNone)"
  shows "(\<forall>e. base path operations kwargs = Inl e \<longrightarrow>
              operation_helper base spec_params path operations kwargs = Inl e) \<and>
         (\<forall>ops'. base path operations kwargs = Inr ops' \<and> \<not> truthy ops' \<longrightarrow>
              operation_helper base spec_params path operations kwargs = Inr ops')"
  using assms by (simp add: operation_helper_def)

text \<open>
  Two instances without routing metadata: a base helper that raises, and one that returns
  with no operations.
\<close>

theorem no_routing_defers_to_base_witness:
  "operation_helper (\<lambda>path operations kwargs. Inl PluginMethodNotImplementedError) []
       (VStr ''/partner'') (VDict [(''get'', VDict [])]) [] = Inl PluginMethodNotImplementedError
   \<and> operation_helper (\<lambda>path operations kwargs. Inr operations) []
       (VStr ''/partner'') (VDict []) [] = Inr (VDict [])"
  using no_routing_defers_to_base [of "[]" "\<lambda>path operations kwargs. Inl PluginMethodNotImplementedError"
      "VStr ''/partner''" "VDict [(''get'', VDict [])]" "[]"]
    no_routing_defers_to_base [of "[]" "\<lambda>path operations kwargs. Inr operations"
      "VStr ''/partner''" "VDict []" "[]"]
  by (simp add: dict_get_def)

text \<open>
  Claim C5 as stated fails. Without routing metadata and with one operation the hook does
  not complete: with a base helper that raises (as the one of \<open>apispec.BasePlugin\<close> does)
  the exception leaves the hook, and with a base helper that returns the hook goes on, since
  no \<open>return\<close> follows the call, and fails on \<open>routing.get\<close> with \<open>routing\<close> equal to
  \<open>None\<close>.
\<close>

theorem no_routing_counterexample:
  "operation_helper (\<lambda>path operations kwargs. Inl PluginMethodNotImplementedError) []
       (VStr ''/partner'') (VDict [(''get'', VDict [])]) [] = Inl PluginMethodNotImplementedError
   \<and> operation_helper (\<lambda>path operations kwargs. Inr operations) []
       (VStr ''/partner'') (VDict [(''get'', VDict [])]) [] = Inl AttributeError"
  by (simp add: operation_helper_def dict_get_def py_get_def)

section \<open>Properties of validation against an inline schema\<close>



lemma apply_defaults_present:
  "k \<in> fst ` set doc \<Longrightarrow> k \<in> fst ` set (apply_defaults rules doc)"
proof (induction rules arbitrary: doc)
  case Nil
  then show ?case by simp
next
  case (Cons a rules)
  obtain field rule where a: "a = (field, rule)" by (cases a)
  from Cons.prems have "k \<in> fst ` set (case rule_entry rule ''default'' of
          Some dv \<Rightarrow>
            if field \<notin> fst ` set doc \<or> (map_of doc field = Some VNone \<and> \<not> rule_flag rule ''nullable'')
            then AList.update field dv doc
            else doc
        | None \<Rightarrow> doc)"
    by (auto simp: dom_update split: option.splits)
  from Cons.IH [OF this] show ?case by (simp add: a)
qed



lemma map_of_purge_unknown_fields:
  "map_of (purge_unknown_fields rules doc) k = (if k \<in> fst ` set rules then map_of doc k else None)"
  unfolding purge_unknown_fields_def by (induction doc) auto


lemma from_params_inline:
  assumes "CerberusValidator_from_params cerberus_Validator service
             \<lparr> schema = SchemaRules rules, is_list = il \<rparr> params = Inr doc"
  shows "\<exists>given. params = VDict given \<and>
           doc = VDict (apply_defaults rules (purge_unknown_fields rules given))"
proof -
  have v: "get_cerberus_validator cerberus_Validator service
             \<lparr> schema = SchemaRules rules, is_list = il \<rparr> Input = Inr (cerberus_Validator rules True)"
    by (simp add: get_cerberus_validator_def)
  from assms show ?thesis
    unfolding CerberusValidator_from_params_def v
    by (cases params) (auto simp: cerberus_Validator_def Let_def split: if_splits)
qed




text \<open>
  Without the purge an undeclared field is an error, and \<open>from_params\<close> would raise.
\<close>

lemma unknown_field_rejected_without_purge:
  assumes "k \<in> fst ` set given" and "k \<notin> fst ` set rules"
  shows "\<exists>outcome. v_validate (cerberus_Validator rules False) (VDict given) = Inr outcome
                   \<and> \<not> valid outcome"
proof -
  from assms(1) have "k \<in> fst ` set (apply_defaults rules given)"
    by (rule apply_defaults_present)
  with assms(2) have "unknown_errors rules (apply_defaults rules given) \<noteq> []"
    by (auto simp: unknown_errors_def filter_empty_conv)
  then show ?thesis
    by (simp add: cerberus_Validator_def Let_def)
qed



end
